theory Spec2Isabelle
  imports Complex_Main "HOL-Library.Sublist"
begin

section \<open>Flare / sector coincidence search of the SPT--TESS notebook\<close>

text \<open>
  The notebook loads the SPT flare catalogue and the table
  of TESS orbit times, aggregates the orbits to sectors, selects the sectors that
  overlap the time span of the catalogue, asks the cut-out service which of them cover
  each flare's position, keeps the sectors whose time window contains the flare, and
  finally filters the catalogue to the flares with a match.

  Modified Julian Dates are modelled as \<^typ>\<open>real\<close>; a missing table entry (NaN) is
  \<^term>\<open>None\<close>. The calls into astropy and lightkurve are parameters of the model.
\<close>

subsection \<open>Exceptions\<close>

datatype error = IndexError | AttributeError | ValueError | TypeError | KeyError

subsection \<open>Tables\<close>

text \<open>A row of the catalogue as \<^verbatim>\<open>read_csv\<close> returns it.\<close>

record csv_flare =
  peak_obsid :: int
  DR3_source_id :: int
  source_ra :: real
  source_dec :: real
  start_time :: string
  end_time :: string

text \<open>
  A row of \<^verbatim>\<open>spt_flares_df\<close>: the catalogue columns and the two columns the first
  cell adds. The later renaming of \<^verbatim>\<open>source_ra\<close>, \<^verbatim>\<open>source_dec\<close> to \<^verbatim>\<open>ra\<close>,
  \<^verbatim>\<open>dec\<close> only relabels the columns.
\<close>

record flare = csv_flare +
  mjd :: real
  sectors :: "int list"

text \<open>
  A row of \<^verbatim>\<open>TESS_sectors_df\<close> after the columns were named \<^verbatim>\<open>Sector\<close>,
  \<^verbatim>\<open>Sector Start\<close> and \<^verbatim>\<open>Sector End\<close>. The type of the times is a parameter: an
  optional ISO string straight after the aggregation, a real once converted to MJD.
\<close>

record 't sector_row =
  Sector :: int
  Sector_Start :: 't
  Sector_End :: 't

subsection \<open>Loading the flare catalogue\<close>

text \<open>
  The first cell converts \<^verbatim>\<open>start_time\<close> to MJD (\<open>iso_to_mjd\<close> stands for astropy's
  conversion), calls \<^verbatim>\<open>sort_values(by='mjd')\<close> without keeping what it returns, and
  gives every row a fresh empty list of sectors. The rows of the catalogue are
  complete, so \<^verbatim>\<open>replace()\<close> leaves them as they are.
\<close>

definition load_flares :: "(string \<Rightarrow> real) \<Rightarrow> csv_flare list \<Rightarrow> flare list" where
  "load_flares iso_to_mjd csv =
     (let with_mjd = map (\<lambda>r. (r, iso_to_mjd (start_time r))) csv;
          sorted_copy = sort_key snd with_mjd
      in map (\<lambda>(r, m).
            \<lparr>peak_obsid = peak_obsid r, DR3_source_id = DR3_source_id r,
             source_ra = source_ra r, source_dec = source_dec r,
             start_time = start_time r, end_time = end_time r,
             mjd = m, sectors = []\<rparr>) with_mjd)"

subsection \<open>Aggregating orbits to sectors\<close>

text \<open>A row of the orbit table as \<^verbatim>\<open>read_csv\<close> returns it; any entry may be missing.\<close>

record 't orbit =
  orbit_Sector :: "int option"
  Start_of_Orbit :: "'t option"
  End_of_Orbit :: "'t option"

fun present :: "'a option list \<Rightarrow> 'a list" where
  "present [] = []"
| "present (None # xs) = present xs"
| "present (Some x # xs) = x # present xs"

text \<open>
  The aggregations \<^verbatim>\<open>"min"\<close> and \<^verbatim>\<open>"max"\<close> over one column of one group. The times
  are ISO strings, so the column holds objects: a column without any entry gives a
  missing value, a column with all its entries gives the least (greatest) of them, and a
  column that has some entries and lacks others makes pandas compare a string with a
  float and raise \<^verbatim>\<open>TypeError\<close>.
\<close>

definition agg_min :: "('t::linorder) option list \<Rightarrow> error + 't option" where
  "agg_min xs =
     (case present xs of
        [] \<Rightarrow> Inr None
      | y # ys \<Rightarrow>
          if length (y # ys) < length xs then Inl TypeError
          else Inr (Some (fold min ys y)))"

definition agg_max :: "('t::linorder) option list \<Rightarrow> error + 't option" where
  "agg_max xs =
     (case present xs of
        [] \<Rightarrow> Inr None
      | y # ys \<Rightarrow>
          if length (y # ys) < length xs then Inl TypeError
          else Inr (Some (fold max ys y)))"

text \<open>The aggregated rows for the sector numbers \<open>ks\<close>, in that order.\<close>

fun agg_groups :: "('t::linorder) orbit list \<Rightarrow> int list \<Rightarrow> error + 't option sector_row list" where
  "agg_groups orbits [] = Inr []"
| "agg_groups orbits (k # ks) =
     (let grp = filter (\<lambda>r. orbit_Sector r = Some k) orbits
      in case agg_min (map Start_of_Orbit grp) of
           Inl e \<Rightarrow> Inl e
         | Inr s \<Rightarrow>
             (case agg_max (map End_of_Orbit grp) of
                Inl e \<Rightarrow> Inl e
              | Inr en \<Rightarrow>
                  (case agg_groups orbits ks of
                     Inl e \<Rightarrow> Inl e
                   | Inr rows \<Rightarrow> Inr (\<lparr>Sector = k, Sector_Start = s, Sector_End = en\<rparr> # rows))))"

text \<open>
  \<^verbatim>\<open>groupby("Sector").agg(...).reset_index()\<close>: one row for each sector number that
  occurs, in ascending order of the number; rows without a sector number belong to no
  group.
\<close>

definition groupby_agg :: "('t::linorder) orbit list \<Rightarrow> error + 't option sector_row list" where
  "groupby_agg orbits = agg_groups orbits (sort (remdups (present (map orbit_Sector orbits))))"

definition dropna_Sector_Start :: "'t option sector_row list \<Rightarrow> 't option sector_row list" where
  "dropna_Sector_Start df = filter (\<lambda>r. Sector_Start r \<noteq> None) df"

text \<open>
  \<^verbatim>\<open>column.apply(lambda x: Time(x, format='iso').utc.mjd)\<close>: the entries are converted
  from the first row on (\<open>iso_to_mjd\<close> stands for astropy's conversion of a well-formed
  time), and a missing entry makes \<^verbatim>\<open>Time\<close> raise \<^verbatim>\<open>ValueError\<close>.
\<close>

fun apply_mjd :: "('t \<Rightarrow> real) \<Rightarrow> 't option list \<Rightarrow> error + real list" where
  "apply_mjd iso_to_mjd [] = Inr []"
| "apply_mjd iso_to_mjd (None # xs) = Inl ValueError"
| "apply_mjd iso_to_mjd (Some x # xs) =
     (case apply_mjd iso_to_mjd xs of
        Inl e \<Rightarrow> Inl e
      | Inr ys \<Rightarrow> Inr (iso_to_mjd x # ys))"

text \<open>
  The rest of the first cell: the aggregation, the two calls of \<^verbatim>\<open>dropna\<close>, both on
  \<^verbatim>\<open>Sector Start\<close>, and the conversion of the start column and then of the end column
  (the sector numbers are integers already).
\<close>

definition TESS_sectors_df :: "('t \<Rightarrow> real) \<Rightarrow> ('t::linorder) orbit list \<Rightarrow> error + real sector_row list" where
  "TESS_sectors_df iso_to_mjd orbits =
     (case groupby_agg orbits of
        Inl e \<Rightarrow> Inl e
      | Inr agg \<Rightarrow>
          (let df = dropna_Sector_Start (dropna_Sector_Start agg)
           in case apply_mjd iso_to_mjd (map Sector_Start df) of
                Inl e \<Rightarrow> Inl e
              | Inr starts \<Rightarrow>
                  (case apply_mjd iso_to_mjd (map Sector_End df) of
                     Inl e \<Rightarrow> Inl e
                   | Inr ends \<Rightarrow>
                       Inr (map (\<lambda>(w, s, en). \<lparr>Sector = Sector w, Sector_Start = s, Sector_End = en\<rparr>)
                              (zip df (zip starts ends))))))"

subsection \<open>The candidate sectors\<close>

text \<open>
  The bounds are the MJD of the first and of the last row of the frame;
  \<^verbatim>\<open>iloc[0]\<close> raises on an empty frame.
\<close>

definition valid_sectors :: "flare list \<Rightarrow> real sector_row list \<Rightarrow> error + int set" where
  "valid_sectors spt_flares_df tbl =
     (if spt_flares_df = [] then Inl IndexError
      else let spt_t_bounds = (mjd (hd spt_flares_df), mjd (last spt_flares_df))
           in Inr (set (map Sector
                (filter (\<lambda>w. Sector_Start w \<le> snd spt_t_bounds \<and> Sector_End w \<ge> fst spt_t_bounds)
                   tbl))))"

subsection \<open>The per-flare matching loop\<close>

text \<open>
  Inside the loop \<^verbatim>\<open>flare\<close> is a copy of the row, but its \<^verbatim>\<open>sectors\<close> entry refers
  to the very list object that the data frame holds. \<^verbatim>\<open>list.append\<close> changes that
  object and returns \<^verbatim>\<open>None\<close>, and the assignment stores this \<^verbatim>\<open>None\<close> in the copy.
  The state of one flare's iteration is therefore the value of the copy's field
  (still the list, or \<^verbatim>\<open>None\<close>) together with the contents of the list in the frame.
\<close>

datatype field = ListRef | NoneVal

type_synonym cell = "field \<times> int list"

text \<open>One pass through the body of the inner loop, for the hit of sector \<open>s\<close>.\<close>

definition match_hit :: "real sector_row list \<Rightarrow> real \<Rightarrow> cell \<Rightarrow> int \<Rightarrow> error + cell" where
  "match_hit tbl t st s =
     (case filter (\<lambda>w. Sector w = s) tbl of
        [] \<Rightarrow> Inl IndexError
      | sector_time # _ \<Rightarrow>
          if Sector_Start sector_time < t \<and> t < Sector_End sector_time
          then (case fst st of
                  NoneVal \<Rightarrow> Inl AttributeError
                | ListRef \<Rightarrow> Inr (NoneVal, snd st @ [s]))
          else Inr st)"

text \<open>
  The inner loop. An exception leaves the loop; what was appended before stays in the
  frame, so the state is returned next to the exception.
\<close>

fun match_hits :: "real sector_row list \<Rightarrow> real \<Rightarrow> cell \<Rightarrow> int list \<Rightarrow> cell \<times> error option" where
  "match_hits tbl t st [] = (st, None)"
| "match_hits tbl t st (s # ss) =
     (case match_hit tbl t st s of
        Inl e \<Rightarrow> (st, Some e)
      | Inr st' \<Rightarrow> match_hits tbl t st' ss)"

text \<open>
  The body of the outer loop. \<open>search_tesscut\<close> stands for the lightkurve query: from a
  position and the sector numbers asked for it returns the sector numbers of the
  products found, in the order of the search result.
\<close>

definition match_flare ::
  "(real \<Rightarrow> real \<Rightarrow> int set \<Rightarrow> int list) \<Rightarrow> int set \<Rightarrow> real sector_row list \<Rightarrow> flare \<Rightarrow> flare \<times> error option"
where
  "match_flare search_tesscut valid tbl f =
     (let possible_matches = search_tesscut (source_ra f) (source_dec f) valid
      in if length possible_matches \<ge> 1
         then (case match_hits tbl (mjd f) (ListRef, sectors f) possible_matches of
                 (st, err) \<Rightarrow> (f\<lparr>sectors := snd st\<rparr>, err))
         else (f, None))"

text \<open>The outer loop over the rows of the frame.\<close>

fun match_loop ::
  "(real \<Rightarrow> real \<Rightarrow> int set \<Rightarrow> int list) \<Rightarrow> int set \<Rightarrow> real sector_row list \<Rightarrow> flare list \<Rightarrow> flare list \<times> error option"
where
  "match_loop search_tesscut valid tbl [] = ([], None)"
| "match_loop search_tesscut valid tbl (f # fs) =
     (case match_flare search_tesscut valid tbl f of
        (f', Some e) \<Rightarrow> (f' # fs, Some e)
      | (f', None) \<Rightarrow>
          (case match_loop search_tesscut valid tbl fs of
             (fs', err) \<Rightarrow> (f' # fs', err)))"

text \<open>The second and third code cells together.\<close>

definition find_coinciding ::
  "(real \<Rightarrow> real \<Rightarrow> int set \<Rightarrow> int list) \<Rightarrow> real sector_row list \<Rightarrow> flare list \<Rightarrow> flare list \<times> error option"
where
  "find_coinciding search_tesscut tbl spt_flares_df =
     (case valid_sectors spt_flares_df tbl of
        Inl e \<Rightarrow> (spt_flares_df, Some e)
      | Inr valid \<Rightarrow> match_loop search_tesscut valid tbl spt_flares_df)"

subsection \<open>The candidates\<close>

text \<open>
  The last step selects rows of a data frame and renumbers them, so the row labels
  matter. A frame here is the list of its rows, each with its label and with the values
  of the columns that \<^verbatim>\<open>reset_index\<close> has put in front of the catalogue columns; the
  names of those columns belong to the frame, and so does the fact that the catalogue
  columns, \<^verbatim>\<open>sectors\<close> among them, are there.
\<close>

record row =
  label :: nat
  carried :: "nat list"
  content :: flare

record frame =
  carried_names :: "string list"
  catalogue :: bool
  body :: "row list"

text \<open>The frame that the loop has worked on: labels \<open>0, 1, \<dots>\<close> and no extra column.\<close>

definition frame_of :: "flare list \<Rightarrow> frame" where
  "frame_of fs =
     \<lparr>carried_names = [], catalogue = True,
      body = map (\<lambda>(i, f). \<lparr>label = i, carried = [], content = f\<rparr>) (enumerate 0 fs)\<rparr>"

text \<open>
  \<^verbatim>\<open>reset_index()\<close> moves the labels into a new first column, named \<^verbatim>\<open>index\<close>, or
  \<^verbatim>\<open>level_0\<close> when a column \<^verbatim>\<open>index\<close> exists, and fails when the name is taken.
\<close>

definition reset_index :: "frame \<Rightarrow> error + frame" where
  "reset_index df =
     (let name = (if ''index'' \<in> set (carried_names df) then ''level_0'' else ''index'')
      in if name \<in> set (carried_names df) then Inl ValueError
         else Inr (df\<lparr>carried_names := name # carried_names df,
                      body := map (\<lambda>(i, r). r\<lparr>label := i, carried := label r # carried r\<rparr>)
                               (enumerate 0 (body df))\<rparr>))"

text \<open>
  \<^verbatim>\<open>df[df['sectors'].apply(lambda x: len(x) > 0)].reset_index()\<close>. Without a column
  \<^verbatim>\<open>sectors\<close> the look-up raises \<^verbatim>\<open>KeyError\<close>. On a frame without rows the mask is an
  empty column of objects, which pandas takes for a list of column names and not for a
  Boolean mask: it selects no column, and the result has the new \<^verbatim>\<open>index\<close> column
  only. Otherwise the rows with a non-empty list are selected.
\<close>

definition spt_tess_candidates :: "frame \<Rightarrow> error + frame" where
  "spt_tess_candidates df =
     (if \<not> catalogue df then Inl KeyError
      else if body df = [] then reset_index (df\<lparr>carried_names := [], catalogue := False\<rparr>)
      else reset_index (df\<lparr>body := filter (\<lambda>r. length (sectors (content r)) > 0) (body df)\<rparr>))"

subsection \<open>Example data\<close>

text \<open>
  A flare as the loader leaves it, with observation number \<open>n\<close> and MJD \<open>t\<close>, and the
  two overlapping sector windows used as a running example.
\<close>

definition flare_at :: "int \<Rightarrow> real \<Rightarrow> flare" where
  "flare_at n t =
     \<lparr>peak_obsid = n, DR3_source_id = 0, source_ra = of_int n, source_dec = 0,
      start_time = [], end_time = [], mjd = t, sectors = []\<rparr>"

definition spec_sectors :: "real sector_row list" where
  "spec_sectors =
     [\<lparr>Sector = 1, Sector_Start = 100, Sector_End = 110\<rparr>,
      \<lparr>Sector = 2, Sector_Start = 108, Sector_End = 120\<rparr>]"

text \<open>
  Orbit tables. In the first, sector 1 has no start at all, sector 2 has three
  complete orbits and sector 3 has no end; the second is the first without sector 3;
  in the third, sector 1 has the start of one of its two orbits only.
\<close>

definition example_orbits :: "int orbit list" where
  "example_orbits =
     [\<lparr>orbit_Sector = Some 2, Start_of_Orbit = Some 30, End_of_Orbit = Some 40\<rparr>,
      \<lparr>orbit_Sector = Some 1, Start_of_Orbit = None, End_of_Orbit = Some 20\<rparr>,
      \<lparr>orbit_Sector = None, Start_of_Orbit = Some 1, End_of_Orbit = Some 2\<rparr>,
      \<lparr>orbit_Sector = Some 2, Start_of_Orbit = Some 25, End_of_Orbit = Some 29\<rparr>,
      \<lparr>orbit_Sector = Some 3, Start_of_Orbit = Some 50, End_of_Orbit = None\<rparr>,
      \<lparr>orbit_Sector = Some 2, Start_of_Orbit = Some 41, End_of_Orbit = Some 55\<rparr>]"

definition example_orbits_with_ends :: "int orbit list" where
  "example_orbits_with_ends =
     [\<lparr>orbit_Sector = Some 2, Start_of_Orbit = Some 30, End_of_Orbit = Some 40\<rparr>,
      \<lparr>orbit_Sector = Some 1, Start_of_Orbit = None, End_of_Orbit = Some 20\<rparr>,
      \<lparr>orbit_Sector = None, Start_of_Orbit = Some 1, End_of_Orbit = Some 2\<rparr>,
      \<lparr>orbit_Sector = Some 2, Start_of_Orbit = Some 25, End_of_Orbit = Some 29\<rparr>,
      \<lparr>orbit_Sector = Some 2, Start_of_Orbit = Some 41, End_of_Orbit = Some 55\<rparr>]"

definition example_orbits_mixed :: "int orbit list" where
  "example_orbits_mixed =
     [\<lparr>orbit_Sector = Some 1, Start_of_Orbit = Some 10, End_of_Orbit = Some 20\<rparr>,
      \<lparr>orbit_Sector = Some 1, Start_of_Orbit = None, End_of_Orbit = Some 30\<rparr>]"

text \<open>
  A catalogue of two flares, the later one first, and the MJD of their start times.
\<close>

definition example_csv :: "csv_flare list" where
  "example_csv =
     [\<lparr>peak_obsid = 1, DR3_source_id = 10, source_ra = 320, source_dec = -53,
       start_time = ''2024-01-02 00:00:00'', end_time = ''2024-01-02 02:00:00''\<rparr>,
      \<lparr>peak_obsid = 2, DR3_source_id = 20, source_ra = 352, source_dec = -68,
       start_time = ''2024-01-01 00:00:00'', end_time = ''2024-01-01 02:00:00''\<rparr>]"

definition example_iso_to_mjd :: "string \<Rightarrow> real" where
  "example_iso_to_mjd s = (if s = ''2024-01-02 00:00:00'' then 60311 else 60310)"


text \<open>
  No sector of the orbit table has a column with some entries present and others
  missing.
\<close>

definition unmixed :: "'t orbit list \<Rightarrow> bool" where
  "unmixed orbits \<longleftrightarrow>
     (\<forall>r\<in>set orbits. \<forall>r'\<in>set orbits.
        orbit_Sector r \<noteq> None \<and> orbit_Sector r = orbit_Sector r' \<longrightarrow>
        (Start_of_Orbit r = None \<longleftrightarrow> Start_of_Orbit r' = None) \<and>
        (End_of_Orbit r = None \<longleftrightarrow> End_of_Orbit r' = None))"


section \<open>The matching loop\<close>

text \<open>
  One pass of the inner loop either leaves the cell as it is or, while the copy's field
  still refers to the list, appends the sector and sets the field to \<^verbatim>\<open>None\<close>.
\<close>

lemma match_hit_Inr:
  "match_hit tbl t st s = Inr st' \<Longrightarrow>
     st' = st \<or> (fst st = ListRef \<and> st' = (NoneVal, snd st @ [s]))"
  by (auto simp: match_hit_def split: list.splits if_splits field.splits)

lemma match_hit_absent:
  "s \<notin> Sector ` set tbl \<Longrightarrow> match_hit tbl t st s = Inl IndexError"
proof -
  assume "s \<notin> Sector ` set tbl"
  then have "filter (\<lambda>w. Sector w = s) tbl = []"
    by (auto simp: filter_empty_conv)
  then show ?thesis by (simp add: match_hit_def)
qed

lemma match_hits_cell:
  "match_hits tbl t st hits = (st', err) \<Longrightarrow>
   (fst st = ListRef \<longrightarrow> snd st = []) \<Longrightarrow> length (snd st) \<le> 1 \<Longrightarrow>
   (fst st' = ListRef \<longrightarrow> snd st' = []) \<and> length (snd st') \<le> 1"
proof (induction hits arbitrary: st)
  case Nil
  then show ?case by simp
next
  case (Cons s ss)
  show ?case
  proof (cases "match_hit tbl t st s")
    case (Inl e)
    with Cons.prems show ?thesis by simp
  next
    case (Inr st1)
    from match_hit_Inr [OF Inr] Cons.prems(2,3)
    have "(fst st1 = ListRef \<longrightarrow> snd st1 = []) \<and> length (snd st1) \<le> 1"
      by auto
    moreover from Inr Cons.prems(1) have "match_hits tbl t st1 ss = (st', err)"
      by simp
    ultimately show ?thesis using Cons.IH by blast
  qed
qed

lemma match_hits_prefix:
  "match_hits tbl t st hits = (st', err) \<Longrightarrow> prefix (snd st) (snd st')"
proof (induction hits arbitrary: st)
  case Nil
  then show ?case by simp
next
  case (Cons s ss)
  show ?case
  proof (cases "match_hit tbl t st s")
    case (Inl e)
    with Cons.prems show ?thesis by simp
  next
    case (Inr st1)
    from match_hit_Inr [OF Inr] have "prefix (snd st) (snd st1)"
      by auto
    moreover from Inr Cons.prems have "prefix (snd st1) (snd st')"
      by (simp add: Cons.IH)
    ultimately show ?thesis by (rule prefix_order.trans)
  qed
qed

lemma match_hits_append:
  "match_hits tbl t st (pre @ rest) =
     (case match_hits tbl t st pre of
        (st', None) \<Rightarrow> match_hits tbl t st' rest
      | (st', Some e) \<Rightarrow> (st', Some e))"
  by (induction pre arbitrary: st) (auto split: sum.splits)

lemma match_flare_sectors:
  "match_flare search valid tbl f = (f', err) \<Longrightarrow> sectors f = [] \<Longrightarrow> length (sectors f') \<le> 1"
  by (auto simp: match_flare_def Let_def split: if_splits prod.splits dest: match_hits_cell)

lemma match_flare_frame:
  "match_flare search valid tbl f = (f', err) \<Longrightarrow>
     prefix (sectors f) (sectors f') \<and> f'\<lparr>sectors := sectors f\<rparr> = f"
  by (auto simp: match_flare_def Let_def split: if_splits prod.splits dest: match_hits_prefix)

lemma match_loop_sectors:
  "match_loop search valid tbl fs = (fs', err) \<Longrightarrow> \<forall>f\<in>set fs. sectors f = [] \<Longrightarrow>
     \<forall>f'\<in>set fs'. length (sectors f') \<le> 1"
proof (induction fs arbitrary: fs' err)
  case Nil
  then show ?case by simp
next
  case (Cons f fs)
  obtain f1 e1 where f1: "match_flare search valid tbl f = (f1, e1)"
    by (cases "match_flare search valid tbl f")
  from Cons.prems(2) have len1: "length (sectors f1) \<le> 1"
    using match_flare_sectors [OF f1] by simp
  show ?case
  proof (cases e1)
    case (Some e)
    with f1 Cons.prems(1) have "fs' = f1 # fs" by simp
    with len1 Cons.prems(2) show ?thesis by simp
  next
    case None
    obtain fs1 e2 where fs1: "match_loop search valid tbl fs = (fs1, e2)"
      by (cases "match_loop search valid tbl fs")
    with None f1 Cons.prems(1) have "fs' = f1 # fs1" by simp
    moreover from Cons.IH [OF fs1] Cons.prems(2) have "\<forall>f'\<in>set fs1. length (sectors f') \<le> 1"
      by simp
    ultimately show ?thesis using len1 by simp
  qed
qed

lemma match_loop_frame:
  "match_loop search valid tbl fs = (fs', err) \<Longrightarrow>
     list_all2 (\<lambda>f f'. prefix (sectors f) (sectors f') \<and> f'\<lparr>sectors := sectors f\<rparr> = f) fs fs'"
proof (induction fs arbitrary: fs' err)
  case Nil
  then show ?case by simp
next
  case (Cons f fs)
  obtain f1 e1 where f1: "match_flare search valid tbl f = (f1, e1)"
    by (cases "match_flare search valid tbl f")
  note fr = match_flare_frame [OF f1]
  show ?case
  proof (cases e1)
    case (Some e)
    with f1 Cons.prems(1) have "fs' = f1 # fs" by simp
    with fr show ?thesis by (simp add: list_all2_refl)
  next
    case None
    obtain fs1 e2 where fs1: "match_loop search valid tbl fs = (fs1, e2)"
      by (cases "match_loop search valid tbl fs")
    with None f1 Cons.prems(1) have "fs' = f1 # fs1" by simp
    with fr Cons.IH [OF fs1] show ?thesis by simp
  qed
qed

lemma match_loop_append:
  "match_loop search valid tbl (pre @ rest) =
     (case match_loop search valid tbl pre of
        (pre', None) \<Rightarrow> (case match_loop search valid tbl rest of (rest', err) \<Rightarrow> (pre' @ rest', err))
      | (pre', Some e) \<Rightarrow> (pre' @ rest, Some e))"
  by (induction pre) (auto split: prod.splits option.splits)

lemmas run_defs = find_coinciding_def valid_sectors_def match_flare_def match_hit_def
  spec_sectors_def flare_at_def

text \<open>
  What the comparison itself decides: a sector is appended only for a time strictly
  inside its window, never for a time on a boundary, and always for the first such hit
  of a flare.
\<close>

lemma match_hit_records_only_inside:
  "match_hit tbl t st s = Inr st' \<Longrightarrow> snd st' \<noteq> snd st \<Longrightarrow>
     \<exists>w\<in>set tbl. Sector w = s \<and> Sector_Start w < t \<and> t < Sector_End w"
proof -
  assume a: "match_hit tbl t st s = Inr st'" "snd st' \<noteq> snd st"
  then obtain w ws where f: "filter (\<lambda>w. Sector w = s) tbl = w # ws"
    by (auto simp: match_hit_def split: list.splits)
  then have "w \<in> set (filter (\<lambda>w. Sector w = s) tbl)" by simp
  then have "w \<in> set tbl" "Sector w = s" by auto
  moreover from a f have "Sector_Start w < t \<and> t < Sector_End w"
    by (auto simp: match_hit_def split: if_splits field.splits)
  ultimately show ?thesis by blast
qed

lemma match_hit_first_inside:
  "filter (\<lambda>w. Sector w = s) tbl = w # ws \<Longrightarrow> Sector_Start w < t \<Longrightarrow> t < Sector_End w \<Longrightarrow>
     match_hit tbl t (ListRef, l) s = Inr (NoneVal, l @ [s])"
  by (simp add: match_hit_def)

lemma match_hit_boundary:
  "filter (\<lambda>w. Sector w = s) tbl = w # ws \<Longrightarrow> t = Sector_Start w \<or> t = Sector_End w \<Longrightarrow>
     match_hit tbl t st s = Inr st"
  by (auto simp: match_hit_def)

text \<open>
  \<^bold>\<open>C1\<close>. The claim: every hit whose window strictly contains the flare's time appends its
  sector, so that for the windows \<open>(1, 100, 110)\<close>, \<open>(2, 108, 120)\<close> and a flare at \<open>109\<close>
  with hits \<open>[1, 2]\<close> the run completes with the sectors \<open>[1, 2]\<close>. On this input the
  notebook appends sector 1, stores the \<^verbatim>\<open>None\<close> that \<^verbatim>\<open>append\<close> returns in the copy,
  and raises \<^verbatim>\<open>AttributeError\<close> at the hit of sector 2: the frame holds \<open>[1]\<close> and
  the run does not complete.
\<close>

theorem scenario_two_containing_hits_raises:
  "find_coinciding (\<lambda>ra dec valid. [1, 2]) spec_sectors [flare_at 1 109] =
     ([(flare_at 1 109)\<lparr>sectors := [1]\<rparr>], Some AttributeError)"
  by (simp add: run_defs)

text \<open>
  \<^bold>\<open>C2\<close>. The claim: a hit whose sector is in the table is recorded if and only if the
  flare's time lies strictly inside the window. The comparison is strict, as the three
  lemmas above say, but a hit that follows an appended one is not recorded: in the
  inner loop for the flare at \<open>109\<close>, sector 2 has \<open>108 < 109 < 120\<close> and the loop stops
  with \<^verbatim>\<open>AttributeError\<close>, the list being \<open>[1]\<close>.
\<close>

theorem second_containing_hit_not_recorded:
  "Sector (spec_sectors ! 1) = 2 \<and>
   Sector_Start (spec_sectors ! 1) < 109 \<and> 109 < Sector_End (spec_sectors ! 1) \<and>
   match_hits spec_sectors 109 (ListRef, []) [1, 2] = ((NoneVal, [1]), Some AttributeError)"
  by (simp add: run_defs)

text \<open>
  \<^bold>\<open>C3\<close>. The claim: a hit whose sector is not in the table is skipped, the other hits
  of the flare are processed and the run goes on. The notebook has no handler: the
  look-up raises \<^verbatim>\<open>IndexError\<close> and the run ends. Here the first flare's hit 99 ends the
  run before sector 1 is looked at, for either flare.
\<close>

theorem unknown_sector_aborts_run_counterexample:
  "99 \<notin> Sector ` set spec_sectors \<and>
   find_coinciding (\<lambda>ra dec valid. [99, 1]) spec_sectors [flare_at 1 105, flare_at 2 105] =
     ([flare_at 1 105, flare_at 2 105], Some IndexError)"
  by (simp add: run_defs)

text \<open>
  \<^bold>\<open>C3\<close>. As amended: when the run reaches a hit whose sector is not in the table, it
  ends there with \<^verbatim>\<open>IndexError\<close>. The flares before keep what they got, the flare at
  hand keeps what the hits before this one appended, its later hits are not looked at,
  and the flares after it are left as they were.
\<close>

theorem unknown_sector_aborts_run:
  assumes "match_loop search valid tbl before = (before', None)"
    and "search (source_ra f) (source_dec f) valid = pre @ s # post"
    and "s \<notin> Sector ` set tbl"
    and "match_hits tbl (mjd f) (ListRef, sectors f) pre = (st, None)"
  shows "match_loop search valid tbl (before @ f # rest) =
           (before' @ f\<lparr>sectors := snd st\<rparr> # rest, Some IndexError)"
proof -
  have "match_hits tbl (mjd f) (ListRef, sectors f) (pre @ s # post) = (st, Some IndexError)"
    using assms(3,4) by (simp add: match_hits_append match_hit_absent)
  then have "match_flare search valid tbl f = (f\<lparr>sectors := snd st\<rparr>, Some IndexError)"
    using assms(2) by (simp add: match_flare_def)
  then show ?thesis
    using assms(1) by (simp add: match_loop_append)
qed

theorem unknown_sector_aborts_run_witness:
  "match_loop (\<lambda>ra dec valid. if ra = 1 then [2] else [1, 99, 1]) {1, 2} spec_sectors [flare_at 1 105] =
     ([flare_at 1 105], None) \<and>
   99 \<notin> Sector ` set spec_sectors \<and>
   match_hits spec_sectors 105 (ListRef, []) [1] = ((NoneVal, [1]), None) \<and>
   match_loop (\<lambda>ra dec valid. if ra = 1 then [2] else [1, 99, 1]) {1, 2} spec_sectors
       ([flare_at 1 105] @ flare_at 2 105 # [flare_at 3 105]) =
     ([flare_at 1 105, (flare_at 2 105)\<lparr>sectors := [1]\<rparr>, flare_at 3 105], Some IndexError)"
proof -
  let ?search = "\<lambda>(ra::real) (dec::real) (valid::int set). if ra = 1 then [2] else [1, 99, 1::int]"
  have a: "match_loop ?search {1, 2} spec_sectors [flare_at 1 105] = ([flare_at 1 105], None)"
    by (simp add: run_defs)
  have b: "?search (source_ra (flare_at 2 105)) (source_dec (flare_at 2 105)) {1, 2} = [1] @ 99 # [1]"
    by (simp add: flare_at_def)
  have c: "99 \<notin> Sector ` set spec_sectors"
    by (simp add: spec_sectors_def)
  have d: "match_hits spec_sectors (mjd (flare_at 2 105)) (ListRef, sectors (flare_at 2 105)) [1] =
             ((NoneVal, [1]), None)"
    by (simp add: run_defs)
  from unknown_sector_aborts_run [OF a b c d, of "[flare_at 3 105]"] a c d
  show ?thesis by (simp add: flare_at_def)
qed

lemma short_distinct: "length xs \<le> 1 \<Longrightarrow> distinct xs"
  by (cases xs) auto

lemma load_flares_sectors: "\<forall>f\<in>set (load_flares iso_to_mjd csv). sectors f = []"
  by (auto simp: load_flares_def)

lemma find_coinciding_sectors:
  "\<forall>f\<in>set fs. sectors f = [] \<Longrightarrow> \<forall>f'\<in>set (fst (find_coinciding search tbl fs)). length (sectors f') \<le> 1"
proof (cases "valid_sectors fs tbl")
  case (Inl e)
  assume "\<forall>f\<in>set fs. sectors f = []"
  with Inl show ?thesis by (simp add: find_coinciding_def)
next
  case (Inr valid)
  assume e: "\<forall>f\<in>set fs. sectors f = []"
  obtain fs' err where r: "match_loop search valid tbl fs = (fs', err)"
    by (cases "match_loop search valid tbl fs")
  from match_loop_sectors [OF r e] Inr r show ?thesis
    by (simp add: find_coinciding_def)
qed

text \<open>
  \<^bold>\<open>C9\<close>. In every run over a loaded catalogue that completes without an
  exception, every flare has at most one sector: once a sector was appended the copy's
  field is \<^verbatim>\<open>None\<close>, and from then on a pass of the inner loop that does not raise
  changes nothing.
\<close>

theorem completed_run_at_most_one_sector:
  assumes "find_coinciding search tbl (load_flares iso_to_mjd csv) = (fs', None)"
  shows "(\<forall>f'\<in>set fs'. length (sectors f') \<le> 1) \<and>
         (\<forall>t l s st'. match_hit tbl t (NoneVal, l) s = Inr st' \<longrightarrow> st' = (NoneVal, l))"
proof
  from find_coinciding_sectors [OF load_flares_sectors, of search tbl iso_to_mjd csv] assms
  show "\<forall>f'\<in>set fs'. length (sectors f') \<le> 1" by simp
  show "\<forall>t l s st'. match_hit tbl t (NoneVal, l) s = Inr st' \<longrightarrow> st' = (NoneVal, l)"
    by (auto dest: match_hit_Inr)
qed

theorem completed_run_at_most_one_sector_witness:
  "map sectors (fst (find_coinciding (\<lambda>ra dec valid. [1, 2])
       [\<lparr>Sector = 1, Sector_Start = 60300, Sector_End = 60311\<rparr>,
        \<lparr>Sector = 2, Sector_Start = 60310, Sector_End = 60320\<rparr>]
       (load_flares example_iso_to_mjd example_csv))) = [[2], [1]] \<and>
   snd (find_coinciding (\<lambda>ra dec valid. [1, 2])
       [\<lparr>Sector = 1, Sector_Start = 60300, Sector_End = 60311\<rparr>,
        \<lparr>Sector = 2, Sector_Start = 60310, Sector_End = 60320\<rparr>]
       (load_flares example_iso_to_mjd example_csv)) = None \<and>
   length [2 :: int] \<le> 1 \<and> length [1 :: int] \<le> 1"
proof -
  let ?run = "find_coinciding (\<lambda>ra dec valid. [1, 2])
       [\<lparr>Sector = 1, Sector_Start = 60300, Sector_End = 60311\<rparr>,
        \<lparr>Sector = 2, Sector_Start = 60310, Sector_End = 60320\<rparr>]
       (load_flares example_iso_to_mjd example_csv)"
  have a: "snd ?run = None" and b: "map sectors (fst ?run) = [[2], [1]]"
    by (simp_all add: load_flares_def example_csv_def example_iso_to_mjd_def find_coinciding_def
          valid_sectors_def match_flare_def match_hit_def)
  from a have "?run = (fst ?run, None)"
    by (metis prod.collapse)
  from completed_run_at_most_one_sector [OF this] a b show ?thesis by simp
qed

text \<open>
  \<^bold>\<open>C6\<close>. The list of sectors is empty for every flare the loader returns; the loop
  changes a flare only by appending to that list; after any number of hits of a flare
  the list has no sector twice; and whether the run completes or raises, no flare of the
  frame has a sector twice.
\<close>

theorem matched_sectors_never_duplicated:
  "(\<forall>f\<in>set (load_flares iso_to_mjd csv). sectors f = []) \<and>
   list_all2 (\<lambda>f f'. prefix (sectors f) (sectors f') \<and> f'\<lparr>sectors := sectors f\<rparr> = f)
     fs (fst (match_loop search valid tbl fs)) \<and>
   (\<forall>k. distinct (snd (fst (match_hits tbl t (ListRef, []) (take k hits))))) \<and>
   (\<forall>f'\<in>set (fst (find_coinciding search tbl (load_flares iso_to_mjd csv))). distinct (sectors f'))"
proof (intro conjI allI)
  show "\<forall>f\<in>set (load_flares iso_to_mjd csv). sectors f = []"
    by (rule load_flares_sectors)
  show "list_all2 (\<lambda>f f'. prefix (sectors f) (sectors f') \<and> f'\<lparr>sectors := sectors f\<rparr> = f)
     fs (fst (match_loop search valid tbl fs))"
    by (cases "match_loop search valid tbl fs") (simp add: match_loop_frame)
  show "distinct (snd (fst (match_hits tbl t (ListRef, []) (take k hits))))" for k
  proof -
    obtain st' err where r: "match_hits tbl t (ListRef, []) (take k hits) = (st', err)"
      by (cases "match_hits tbl t (ListRef, []) (take k hits)")
    from match_hits_cell [OF r] have "length (snd st') \<le> 1" by simp
    with r show ?thesis by (simp add: short_distinct)
  qed
  show "\<forall>f'\<in>set (fst (find_coinciding search tbl (load_flares iso_to_mjd csv))). distinct (sectors f')"
    using find_coinciding_sectors [OF load_flares_sectors] short_distinct by blast
qed

theorem matched_sectors_never_duplicated_witness:
  "map sectors (load_flares example_iso_to_mjd example_csv) = [[], []] \<and>
   find_coinciding (\<lambda>ra dec valid. [1, 1]) [\<lparr>Sector = 1, Sector_Start = 60300, Sector_End = 60320\<rparr>]
       (load_flares example_iso_to_mjd example_csv) =
     ([(load_flares example_iso_to_mjd example_csv ! 0)\<lparr>sectors := [1]\<rparr>,
       load_flares example_iso_to_mjd example_csv ! 1], Some AttributeError) \<and>
   distinct (sectors ((load_flares example_iso_to_mjd example_csv ! 0)\<lparr>sectors := [1]\<rparr>)) \<and>
   match_hits [\<lparr>Sector = 1, Sector_Start = 60300, Sector_End = 60320\<rparr>] 60311 (ListRef, []) (take 1 [1, 1]) =
     ((NoneVal, [1]), None)"
  using matched_sectors_never_duplicated [of example_iso_to_mjd example_csv
      "load_flares example_iso_to_mjd example_csv" "\<lambda>ra dec valid. [1, 1]" "{1}"
      "[\<lparr>Sector = 1, Sector_Start = 60300, Sector_End = 60320\<rparr>]" 60311 "[1, 1]"]
  by (simp add: load_flares_def example_csv_def example_iso_to_mjd_def find_coinciding_def
        valid_sectors_def match_flare_def match_hit_def)

section \<open>The candidate sectors\<close>

text \<open>
  \<^bold>\<open>C4\<close>. For a frame with at least one flare the candidate sectors are exactly the
  sector numbers of the rows that start no later than the MJD of the last flare and end
  no earlier than the MJD of the first flare, in the order of the frame; they depend
  on the frame through these two times only. The witness has the flares at
  \<open>5, 1, 3\<close>: the bounds are \<open>5\<close> and \<open>3\<close>, not \<open>1\<close> and \<open>5\<close>, and sector 1, which
  covers the flare at \<open>1\<close>, is not a candidate.
\<close>

theorem valid_sectors_first_last:
  assumes "spt_flares_df \<noteq> []"
  shows "valid_sectors spt_flares_df tbl =
           Inr {Sector w | w. w \<in> set tbl \<and>
                  Sector_Start w \<le> mjd (last spt_flares_df) \<and>
                  Sector_End w \<ge> mjd (hd spt_flares_df)} \<and>
         (\<forall>other. other \<noteq> [] \<and> mjd (hd other) = mjd (hd spt_flares_df) \<and>
              mjd (last other) = mjd (last spt_flares_df) \<longrightarrow>
            valid_sectors other tbl = valid_sectors spt_flares_df tbl)"
  using assms by (auto simp: valid_sectors_def)

theorem valid_sectors_first_last_witness:
  "[flare_at 1 5, flare_at 2 1, flare_at 3 3] \<noteq> [] \<and>
   valid_sectors [flare_at 1 5, flare_at 2 1, flare_at 3 3]
     [\<lparr>Sector = 1, Sector_Start = 0, Sector_End = 2\<rparr>,
      \<lparr>Sector = 2, Sector_Start = 2, Sector_End = 6\<rparr>,
      \<lparr>Sector = 3, Sector_Start = 4, Sector_End = 7\<rparr>] = Inr {2} \<and>
   valid_sectors [flare_at 4 5, flare_at 5 3]
     [\<lparr>Sector = 1, Sector_Start = 0, Sector_End = 2\<rparr>,
      \<lparr>Sector = 2, Sector_Start = 2, Sector_End = 6\<rparr>,
      \<lparr>Sector = 3, Sector_Start = 4, Sector_End = 7\<rparr>] = Inr {2}"
proof -
  let ?tbl = "[\<lparr>Sector = 1, Sector_Start = 0, Sector_End = 2\<rparr>,
      \<lparr>Sector = 2, Sector_Start = 2, Sector_End = 6\<rparr>,
      \<lparr>Sector = 3, Sector_Start = 4, Sector_End = 7 :: real\<rparr>]"
  have ne: "[flare_at 1 5, flare_at 2 1, flare_at 3 3] \<noteq> []" by simp
  have a: "valid_sectors [flare_at 1 5, flare_at 2 1, flare_at 3 3] ?tbl = Inr {2}"
    using valid_sectors_first_last [OF ne, of ?tbl]
    by (simp add: valid_sectors_def flare_at_def)
  have "[flare_at 4 5, flare_at 5 3] \<noteq> [] \<and>
        mjd (hd [flare_at 4 5, flare_at 5 3]) = mjd (hd [flare_at 1 5, flare_at 2 1, flare_at 3 3]) \<and>
        mjd (last [flare_at 4 5, flare_at 5 3]) = mjd (last [flare_at 1 5, flare_at 2 1, flare_at 3 3])"
    by (simp add: flare_at_def)
  with valid_sectors_first_last [OF ne, of ?tbl]
  have "valid_sectors [flare_at 4 5, flare_at 5 3] ?tbl =
          valid_sectors [flare_at 1 5, flare_at 2 1, flare_at 3 3] ?tbl"
    by blast
  with a ne show ?thesis by simp
qed

section \<open>The loader\<close>

lemma load_flares_order:
  "map start_time (load_flares iso_to_mjd csv) = map start_time csv \<and>
   map mjd (load_flares iso_to_mjd csv) = map (\<lambda>r. iso_to_mjd (start_time r)) csv"
  by (simp add: load_flares_def comp_def case_prod_unfold)

text \<open>
  \<^bold>\<open>C7\<close>. The claim: the loader returns the flares in ascending order of time. The
  notebook calls \<^verbatim>\<open>sort_values\<close> and drops what it returns, so the frame keeps the order
  of the catalogue: for the catalogue with the later flare first, the times are not
  ascending.
\<close>

theorem sort_values_result_not_kept:
  "map mjd (load_flares example_iso_to_mjd example_csv) = [60311, 60310] \<and>
   \<not> sorted (map mjd (load_flares example_iso_to_mjd example_csv))"
  by (simp add: load_flares_def example_csv_def example_iso_to_mjd_def)

section \<open>The sector table\<close>

lemma set_present: "set (present xs) = {x. Some x \<in> set xs}"
  by (induction xs rule: present.induct) auto

lemma length_present: "length (present xs) \<le> length xs"
  by (induction xs rule: present.induct) auto

lemma present_complete: "length (present xs) = length xs \<longleftrightarrow> None \<notin> set xs"
proof (induction xs rule: present.induct)
  case (2 xs)
  from length_present [of xs] show ?case by simp
qed simp_all

lemma present_Nil: "present xs = [] \<longleftrightarrow> (\<forall>x\<in>set xs. x = None)"
  by (induction xs rule: present.induct) auto

lemma agg_min_Inr:
  assumes "agg_min xs = Inr r"
  shows "r = (if {x. Some x \<in> set xs} = {} then None else Some (Min {x. Some x \<in> set xs}))"
    and "None \<notin> set xs \<or> (\<forall>x\<in>set xs. x = None)"
proof -
  show "r = (if {x. Some x \<in> set xs} = {} then None else Some (Min {x. Some x \<in> set xs}))"
  proof (cases "present xs")
    case Nil
    then have "{x. Some x \<in> set xs} = {}"
      using set_present [of xs] by simp
    with Nil assms show ?thesis by (simp add: agg_min_def)
  next
    case (Cons y ys)
    then have "{x. Some x \<in> set xs} = set (y # ys)"
      using set_present [of xs] by simp
    with Cons assms show ?thesis
      by (simp add: agg_min_def Min.set_eq_fold del: set_simps split: if_splits)
  qed
  show "None \<notin> set xs \<or> (\<forall>x\<in>set xs. x = None)"
  proof (cases "present xs")
    case Nil
    then show ?thesis by (simp add: present_Nil)
  next
    case (Cons y ys)
    with assms have "\<not> length (present xs) < length xs"
      by (simp add: agg_min_def split: if_splits)
    with length_present [of xs] have "length (present xs) = length xs" by simp
    then show ?thesis by (simp add: present_complete)
  qed
qed

lemma agg_max_Inr:
  assumes "agg_max xs = Inr r"
  shows "r = (if {x. Some x \<in> set xs} = {} then None else Some (Max {x. Some x \<in> set xs}))"
    and "None \<notin> set xs \<or> (\<forall>x\<in>set xs. x = None)"
proof -
  show "r = (if {x. Some x \<in> set xs} = {} then None else Some (Max {x. Some x \<in> set xs}))"
  proof (cases "present xs")
    case Nil
    then have "{x. Some x \<in> set xs} = {}"
      using set_present [of xs] by simp
    with Nil assms show ?thesis by (simp add: agg_max_def)
  next
    case (Cons y ys)
    then have "{x. Some x \<in> set xs} = set (y # ys)"
      using set_present [of xs] by simp
    with Cons assms show ?thesis
      by (simp add: agg_max_def Max.set_eq_fold del: set_simps split: if_splits)
  qed
  show "None \<notin> set xs \<or> (\<forall>x\<in>set xs. x = None)"
  proof (cases "present xs")
    case Nil
    then show ?thesis by (simp add: present_Nil)
  next
    case (Cons y ys)
    with assms have "\<not> length (present xs) < length xs"
      by (simp add: agg_max_def split: if_splits)
    with length_present [of xs] have "length (present xs) = length xs" by simp
    then show ?thesis by (simp add: present_complete)
  qed
qed

lemma agg_min_total:
  assumes "None \<notin> set xs \<or> (\<forall>x\<in>set xs. x = None)"
  shows "\<exists>r. agg_min xs = Inr r"
proof (cases "present xs")
  case Nil
  then show ?thesis by (simp add: agg_min_def)
next
  case (Cons y ys)
  then have "\<not> (\<forall>x\<in>set xs. x = None)"
    using present_Nil [of xs] by simp
  with assms have "None \<notin> set xs" by blast
  then have "length (present xs) = length xs"
    by (simp add: present_complete)
  with Cons show ?thesis by (simp add: agg_min_def)
qed

lemma agg_max_total:
  assumes "None \<notin> set xs \<or> (\<forall>x\<in>set xs. x = None)"
  shows "\<exists>r. agg_max xs = Inr r"
proof (cases "present xs")
  case Nil
  then show ?thesis by (simp add: agg_max_def)
next
  case (Cons y ys)
  then have "\<not> (\<forall>x\<in>set xs. x = None)"
    using present_Nil [of xs] by simp
  with assms have "None \<notin> set xs" by blast
  then have "length (present xs) = length xs"
    by (simp add: present_complete)
  with Cons show ?thesis by (simp add: agg_max_def)
qed

lemma agg_min_Inl: "agg_min xs = Inl e \<Longrightarrow> e = TypeError"
  by (auto simp: agg_min_def split: list.splits if_splits)

lemma agg_max_Inl: "agg_max xs = Inl e \<Longrightarrow> e = TypeError"
  by (auto simp: agg_max_def split: list.splits if_splits)

lemma agg_groups_Inl: "agg_groups orbits ks = Inl e \<Longrightarrow> e = TypeError"
proof (induction ks)
  case Nil
  then show ?case by simp
next
  case (Cons k ks)
  then show ?case
    by (auto simp: Let_def split: sum.splits dest: agg_min_Inl agg_max_Inl)
qed

lemma column_of_group:
  "{x. Some x \<in> set (map col (filter (\<lambda>r. orbit_Sector r = Some k) orbits))} =
     {x. \<exists>r\<in>set orbits. orbit_Sector r = Some k \<and> col r = Some x}"
  by force

lemma agg_groups_rows:
  "agg_groups orbits ks = Inr rows \<Longrightarrow>
     map Sector rows = ks \<and>
     (\<forall>w\<in>set rows.
        Sector_Start w =
          (if {x. \<exists>r\<in>set orbits. orbit_Sector r = Some (Sector w) \<and> Start_of_Orbit r = Some x} = {} then None
           else Some (Min {x. \<exists>r\<in>set orbits. orbit_Sector r = Some (Sector w) \<and> Start_of_Orbit r = Some x})) \<and>
        Sector_End w =
          (if {x. \<exists>r\<in>set orbits. orbit_Sector r = Some (Sector w) \<and> End_of_Orbit r = Some x} = {} then None
           else Some (Max {x. \<exists>r\<in>set orbits. orbit_Sector r = Some (Sector w) \<and> End_of_Orbit r = Some x})))"
proof (induction ks arbitrary: rows)
  case Nil
  then show ?case by simp
next
  case (Cons k ks)
  let ?grp = "filter (\<lambda>r. orbit_Sector r = Some k) orbits"
  from Cons.prems obtain s e rest where
    s: "agg_min (map Start_of_Orbit ?grp) = Inr s" and
    e: "agg_max (map End_of_Orbit ?grp) = Inr e" and
    rest: "agg_groups orbits ks = Inr rest" and
    rows: "rows = \<lparr>Sector = k, Sector_Start = s, Sector_End = e\<rparr> # rest"
    by (auto simp: Let_def split: sum.splits)
  note s' = agg_min_Inr(1) [OF s, unfolded column_of_group]
  note e' = agg_max_Inr(1) [OF e, unfolded column_of_group]
  from Cons.IH [OF rest] rows s' e' show ?case by simp
qed

lemma agg_groups_columns:
  "agg_groups orbits ks = Inr rows \<Longrightarrow> k \<in> set ks \<Longrightarrow>
     (None \<notin> set (map Start_of_Orbit (filter (\<lambda>r. orbit_Sector r = Some k) orbits)) \<or>
      (\<forall>x\<in>set (map Start_of_Orbit (filter (\<lambda>r. orbit_Sector r = Some k) orbits)). x = None)) \<and>
     (None \<notin> set (map End_of_Orbit (filter (\<lambda>r. orbit_Sector r = Some k) orbits)) \<or>
      (\<forall>x\<in>set (map End_of_Orbit (filter (\<lambda>r. orbit_Sector r = Some k) orbits)). x = None))"
proof (induction ks arbitrary: rows)
  case Nil
  then show ?case by simp
next
  case (Cons k' ks)
  let ?grp = "filter (\<lambda>r. orbit_Sector r = Some k') orbits"
  from Cons.prems(1) obtain s e rest where
    s: "agg_min (map Start_of_Orbit ?grp) = Inr s" and
    e: "agg_max (map End_of_Orbit ?grp) = Inr e" and
    rest: "agg_groups orbits ks = Inr rest"
    by (auto simp: Let_def split: sum.splits)
  show ?case
  proof (cases "k = k'")
    case True
    from agg_min_Inr(2) [OF s] agg_max_Inr(2) [OF e] show ?thesis
      unfolding True by (rule conjI)
  next
    case False
    with Cons.prems(2) have "k \<in> set ks" by simp
    from Cons.IH [OF rest this] show ?thesis .
  qed
qed

lemma unmixed_column:
  assumes "unmixed orbits"
  shows "None \<notin> set (map Start_of_Orbit (filter (\<lambda>r. orbit_Sector r = Some k) orbits)) \<or>
          (\<forall>x\<in>set (map Start_of_Orbit (filter (\<lambda>r. orbit_Sector r = Some k) orbits)). x = None)"
    and "None \<notin> set (map End_of_Orbit (filter (\<lambda>r. orbit_Sector r = Some k) orbits)) \<or>
          (\<forall>x\<in>set (map End_of_Orbit (filter (\<lambda>r. orbit_Sector r = Some k) orbits)). x = None)"
proof -
  let ?grp = "filter (\<lambda>r. orbit_Sector r = Some k) orbits"
  have same: "(Start_of_Orbit r = None \<longleftrightarrow> Start_of_Orbit r' = None) \<and>
              (End_of_Orbit r = None \<longleftrightarrow> End_of_Orbit r' = None)"
    if "r \<in> set ?grp" "r' \<in> set ?grp" for r r'
  proof -
    from that have m: "r \<in> set orbits" "r' \<in> set orbits"
      and "orbit_Sector r \<noteq> None \<and> orbit_Sector r = orbit_Sector r'"
      by simp_all
    from assms [unfolded unmixed_def, rule_format, OF m this(3)] show ?thesis .
  qed
  show "None \<notin> set (map Start_of_Orbit ?grp) \<or> (\<forall>x\<in>set (map Start_of_Orbit ?grp). x = None)"
  proof (cases "None \<in> set (map Start_of_Orbit ?grp)")
    case True
    then obtain r where r: "r \<in> set ?grp" "Start_of_Orbit r = None"
      by auto
    have "Start_of_Orbit r' = None" if "r' \<in> set ?grp" for r'
      using same [OF r(1) that] r(2) by simp
    then show ?thesis by auto
  next
    case False
    then show ?thesis by blast
  qed
  show "None \<notin> set (map End_of_Orbit ?grp) \<or> (\<forall>x\<in>set (map End_of_Orbit ?grp). x = None)"
  proof (cases "None \<in> set (map End_of_Orbit ?grp)")
    case True
    then obtain r where r: "r \<in> set ?grp" "End_of_Orbit r = None"
      by auto
    have "End_of_Orbit r' = None" if "r' \<in> set ?grp" for r'
      using same [OF r(1) that] r(2) by simp
    then show ?thesis by auto
  next
    case False
    then show ?thesis by blast
  qed
qed

lemma agg_groups_total:
  "unmixed orbits \<Longrightarrow> \<exists>rows. agg_groups orbits ks = Inr rows"
proof (induction ks)
  case Nil
  then show ?case by simp
next
  case (Cons k ks)
  let ?grp = "filter (\<lambda>r. orbit_Sector r = Some k) orbits"
  from agg_min_total [OF unmixed_column(1) [OF Cons.prems, of k]]
  obtain s where s: "agg_min (map Start_of_Orbit ?grp) = Inr s" ..
  from agg_max_total [OF unmixed_column(2) [OF Cons.prems, of k]]
  obtain e where e: "agg_max (map End_of_Orbit ?grp) = Inr e" ..
  from Cons.IH [OF Cons.prems] obtain rest where rest: "agg_groups orbits ks = Inr rest" ..
  from s e rest show ?case by (simp add: Let_def)
qed

lemma groupby_agg_unmixed:
  assumes "groupby_agg orbits = Inr df"
  shows "unmixed orbits"
  unfolding unmixed_def
proof (intro ballI impI)
  fix r r'
  assume m: "r \<in> set orbits" "r' \<in> set orbits"
    and key: "orbit_Sector r \<noteq> None \<and> orbit_Sector r = orbit_Sector r'"
  from key have "orbit_Sector r \<noteq> None" by (rule conjunct1)
  then obtain k where k1: "orbit_Sector r = Some k" by auto
  from key have eq: "orbit_Sector r = orbit_Sector r'" by (rule conjunct2)
  from eq [symmetric] k1 have k2: "orbit_Sector r' = Some k" by (rule trans)
  note k = k1 k2
  let ?grp = "filter (\<lambda>r. orbit_Sector r = Some k) orbits"
  from m k have "Some k \<in> set (map orbit_Sector orbits)"
    by (auto intro: rev_image_eqI)
  then have "k \<in> set (sort (remdups (present (map orbit_Sector orbits))))"
    by (simp add: set_present)
  note c = agg_groups_columns [OF assms [unfolded groupby_agg_def] this]
  from m k have g: "r \<in> set ?grp" "r' \<in> set ?grp" by simp_all
  have s: "Start_of_Orbit r \<in> set (map Start_of_Orbit ?grp)"
    "Start_of_Orbit r' \<in> set (map Start_of_Orbit ?grp)"
    using g by (simp_all only: set_map image_eqI)
  have e: "End_of_Orbit r \<in> set (map End_of_Orbit ?grp)"
    "End_of_Orbit r' \<in> set (map End_of_Orbit ?grp)"
    using g by (simp_all only: set_map image_eqI)
  have "Start_of_Orbit r = None \<longleftrightarrow> Start_of_Orbit r' = None"
  proof (cases "None \<in> set (map Start_of_Orbit ?grp)")
    case True
    from c have "None \<notin> set (map Start_of_Orbit ?grp) \<or> (\<forall>x\<in>set (map Start_of_Orbit ?grp). x = None)"
      by (rule conjunct1)
    with True have all: "\<forall>x\<in>set (map Start_of_Orbit ?grp). x = None" by blast
    from all s(1) have "Start_of_Orbit r = None" by (rule bspec)
    moreover from all s(2) have "Start_of_Orbit r' = None" by (rule bspec)
    ultimately show ?thesis by auto
  next
    case False
    with s(1) have "Start_of_Orbit r \<noteq> None" by metis
    moreover from False s(2) have "Start_of_Orbit r' \<noteq> None" by metis
    ultimately show ?thesis by auto
  qed
  moreover have "End_of_Orbit r = None \<longleftrightarrow> End_of_Orbit r' = None"
  proof (cases "None \<in> set (map End_of_Orbit ?grp)")
    case True
    from c have "None \<notin> set (map End_of_Orbit ?grp) \<or> (\<forall>x\<in>set (map End_of_Orbit ?grp). x = None)"
      by (rule conjunct2)
    with True have all: "\<forall>x\<in>set (map End_of_Orbit ?grp). x = None" by blast
    from all e(1) have "End_of_Orbit r = None" by (rule bspec)
    moreover from all e(2) have "End_of_Orbit r' = None" by (rule bspec)
    ultimately show ?thesis by auto
  next
    case False
    with e(1) have "End_of_Orbit r \<noteq> None" by metis
    moreover from False e(2) have "End_of_Orbit r' \<noteq> None" by metis
    ultimately show ?thesis by auto
  qed
  ultimately show "(Start_of_Orbit r = None \<longleftrightarrow> Start_of_Orbit r' = None) \<and>
      (End_of_Orbit r = None \<longleftrightarrow> End_of_Orbit r' = None)" ..
qed

lemma example_groupby:
  "groupby_agg example_orbits =
     Inr [\<lparr>Sector = 1, Sector_Start = None, Sector_End = Some 20\<rparr>,
          \<lparr>Sector = 2, Sector_Start = Some 25, Sector_End = Some 55\<rparr>,
          \<lparr>Sector = 3, Sector_Start = Some 50, Sector_End = None\<rparr>]"
  by (simp add: groupby_agg_def example_orbits_def agg_min_def agg_max_def)

lemma example_groupby_with_ends:
  "groupby_agg example_orbits_with_ends =
     Inr [\<lparr>Sector = 1, Sector_Start = None, Sector_End = Some 20\<rparr>,
          \<lparr>Sector = 2, Sector_Start = Some 25, Sector_End = Some 55\<rparr>]"
  by (simp add: groupby_agg_def example_orbits_with_ends_def agg_min_def agg_max_def)

lemma example_unmixed: "unmixed example_orbits"
  by (simp add: unmixed_def example_orbits_def)

lemma example_mixed: "\<not> unmixed example_orbits_mixed"
  by (simp add: unmixed_def example_orbits_mixed_def)

text \<open>
  \<^bold>\<open>C5\<close>. The claim: for every orbit table in which several orbits share a sector
  number, the aggregation gives one row for each sector. In this table sector 1 has two
  orbits, one of them without a start: the column mixes a string with a missing entry,
  pandas raises \<^verbatim>\<open>TypeError\<close>, and there is no aggregated table.
\<close>

theorem mixed_column_raises_counterexample:
  "groupby_agg example_orbits_mixed = Inl TypeError"
  by (simp add: groupby_agg_def example_orbits_mixed_def agg_min_def)

text \<open>
  \<^bold>\<open>C5\<close>. As amended: the aggregation returns a table exactly when no sector has a
  column that mixes present and missing entries, and raises \<^verbatim>\<open>TypeError\<close> otherwise.
  The table it returns has exactly one row for every sector number of the orbit table;
  the start of the row is the least start among the orbits of the sector and its end
  the greatest end among them (a missing value if the sector has none).
\<close>

theorem groupby_agg_one_row_per_sector:
  "(unmixed orbits \<longrightarrow> (\<exists>df. groupby_agg orbits = Inr df)) \<and>
   (\<not> unmixed orbits \<longrightarrow> groupby_agg orbits = Inl TypeError) \<and>
   (\<forall>df. groupby_agg orbits = Inr df \<longrightarrow>
      distinct (map Sector df) \<and>
      set (map Sector df) = {k. \<exists>r\<in>set orbits. orbit_Sector r = Some k} \<and>
      (\<forall>w\<in>set df.
         let starts = {x. \<exists>r\<in>set orbits. orbit_Sector r = Some (Sector w) \<and> Start_of_Orbit r = Some x};
             ends = {x. \<exists>r\<in>set orbits. orbit_Sector r = Some (Sector w) \<and> End_of_Orbit r = Some x}
         in Sector_Start w = (if starts = {} then None else Some (Min starts)) \<and>
            Sector_End w = (if ends = {} then None else Some (Max ends))))"
proof (intro conjI allI impI)
  assume "unmixed orbits"
  then show "\<exists>df. groupby_agg orbits = Inr df"
    unfolding groupby_agg_def by (rule agg_groups_total)
next
  assume mixed: "\<not> unmixed orbits"
  show "groupby_agg orbits = Inl TypeError"
  proof (cases "groupby_agg orbits")
    case (Inl e)
    then have "e = TypeError"
      unfolding groupby_agg_def by (rule agg_groups_Inl)
    with Inl show ?thesis by simp
  next
    case (Inr df)
    then have "unmixed orbits" by (rule groupby_agg_unmixed)
    with mixed show ?thesis by simp
  qed
next
  fix df assume df: "groupby_agg orbits = Inr df"
  note rows = agg_groups_rows [OF df [unfolded groupby_agg_def]]
  from rows show "distinct (map Sector df)" by simp
  from rows have "set (map Sector df) = set (present (map orbit_Sector orbits))" by simp
  then show "set (map Sector df) = {k. \<exists>r\<in>set orbits. orbit_Sector r = Some k}"
    by (auto simp: set_present intro: rev_image_eqI)
  from rows show "\<forall>w\<in>set df.
         let starts = {x. \<exists>r\<in>set orbits. orbit_Sector r = Some (Sector w) \<and> Start_of_Orbit r = Some x};
             ends = {x. \<exists>r\<in>set orbits. orbit_Sector r = Some (Sector w) \<and> End_of_Orbit r = Some x}
         in Sector_Start w = (if starts = {} then None else Some (Min starts)) \<and>
            Sector_End w = (if ends = {} then None else Some (Max ends))"
    unfolding Let_def by (rule conjunct2)
qed

theorem groupby_agg_one_row_per_sector_witness:
  "unmixed example_orbits \<and>
   groupby_agg example_orbits =
     Inr [\<lparr>Sector = 1, Sector_Start = None, Sector_End = Some 20\<rparr>,
          \<lparr>Sector = 2, Sector_Start = Some 25, Sector_End = Some 55\<rparr>,
          \<lparr>Sector = 3, Sector_Start = Some 50, Sector_End = None\<rparr>] \<and>
   {x. \<exists>r\<in>set example_orbits. orbit_Sector r = Some 2 \<and> Start_of_Orbit r = Some x} = {30, 25, 41} \<and>
   {x. \<exists>r\<in>set example_orbits. orbit_Sector r = Some 2 \<and> End_of_Orbit r = Some x} = {40, 29, 55} \<and>
   Min {30, 25, 41 :: int} = 25 \<and> Max {40, 29, 55 :: int} = 55 \<and>
   \<not> unmixed example_orbits_mixed \<and>
   groupby_agg example_orbits_mixed = Inl TypeError"
  using groupby_agg_one_row_per_sector [of example_orbits]
    groupby_agg_one_row_per_sector [of example_orbits_mixed]
    example_groupby example_unmixed example_mixed
  by (auto simp: example_orbits_def)

lemma apply_mjd_eq:
  "apply_mjd f xs = (if None \<in> set xs then Inl ValueError else Inr (map (\<lambda>x. f (the x)) xs))"
  by (induction f xs rule: apply_mjd.induct) auto

lemma zip_columns:
  "map (\<lambda>(w, s, en). \<lparr>Sector = Sector w, Sector_Start = s, Sector_End = en\<rparr>)
       (zip df (zip (map g df) (map h df))) =
   map (\<lambda>w. \<lparr>Sector = Sector w, Sector_Start = g w, Sector_End = h w\<rparr>) df"
  by (induction df) auto

lemma dropna_twice:
  "dropna_Sector_Start (dropna_Sector_Start agg) = filter (\<lambda>w. Sector_Start w \<noteq> None) agg"
  by (simp add: dropna_Sector_Start_def)

text \<open>
  \<^bold>\<open>C10\<close>. Once the orbits are aggregated, the two calls of \<^verbatim>\<open>dropna\<close> remove
  exactly the rows without a start and look at nothing else: a row with a start stays
  in the frame whether or not it has an end. The rows without a start cause no error:
  if every remaining row has an end, the cell yields the sector table made of the
  remaining rows. A remaining row without an end is not dropped; it reaches the
  conversion of the end column, which raises \<^verbatim>\<open>ValueError\<close>.
\<close>

theorem missing_start_dropped_missing_end_kept:
  assumes "groupby_agg orbits = Inr agg"
  shows "(\<forall>w\<in>set agg.
            (Sector_Start w = None \<longrightarrow> w \<notin> set (dropna_Sector_Start (dropna_Sector_Start agg))) \<and>
            (Sector_Start w \<noteq> None \<longrightarrow> w \<in> set (dropna_Sector_Start (dropna_Sector_Start agg)))) \<and>
         ((\<forall>w\<in>set agg. Sector_Start w \<noteq> None \<longrightarrow> Sector_End w \<noteq> None) \<longrightarrow>
            TESS_sectors_df iso_to_mjd orbits =
              Inr (map (\<lambda>w. \<lparr>Sector = Sector w,
                             Sector_Start = iso_to_mjd (the (Sector_Start w)),
                             Sector_End = iso_to_mjd (the (Sector_End w))\<rparr>)
                     (filter (\<lambda>w. Sector_Start w \<noteq> None) agg))) \<and>
         ((\<exists>w\<in>set agg. Sector_Start w \<noteq> None \<and> Sector_End w = None) \<longrightarrow>
            TESS_sectors_df iso_to_mjd orbits = Inl ValueError)"
proof (intro conjI impI)
  let ?df = "filter (\<lambda>w. Sector_Start w \<noteq> None) agg"
  show "\<forall>w\<in>set agg.
            (Sector_Start w = None \<longrightarrow> w \<notin> set (dropna_Sector_Start (dropna_Sector_Start agg))) \<and>
            (Sector_Start w \<noteq> None \<longrightarrow> w \<in> set (dropna_Sector_Start (dropna_Sector_Start agg)))"
    by (simp add: dropna_twice)
  have starts: "None \<notin> set (map Sector_Start ?df)"
    by auto
  have cell: "TESS_sectors_df iso_to_mjd orbits =
      (if None \<in> set (map Sector_End ?df) then Inl ValueError
       else Inr (map (\<lambda>w. \<lparr>Sector = Sector w,
                             Sector_Start = iso_to_mjd (the (Sector_Start w)),
                             Sector_End = iso_to_mjd (the (Sector_End w))\<rparr>) ?df))"
    using assms starts
    by (simp add: TESS_sectors_df_def dropna_twice apply_mjd_eq zip_columns
          del: set_map set_filter)
  {
    assume "\<forall>w\<in>set agg. Sector_Start w \<noteq> None \<longrightarrow> Sector_End w \<noteq> None"
    then have "None \<notin> set (map Sector_End ?df)" by auto
    with cell show "TESS_sectors_df iso_to_mjd orbits =
              Inr (map (\<lambda>w. \<lparr>Sector = Sector w,
                             Sector_Start = iso_to_mjd (the (Sector_Start w)),
                             Sector_End = iso_to_mjd (the (Sector_End w))\<rparr>) ?df)"
      by simp
  }
  {
    assume "\<exists>w\<in>set agg. Sector_Start w \<noteq> None \<and> Sector_End w = None"
    then obtain w where "w \<in> set ?df" "Sector_End w = None" by auto
    then have "None \<in> set (map Sector_End ?df)"
      by (metis image_eqI set_map)
    with cell show "TESS_sectors_df iso_to_mjd orbits = Inl ValueError"
      by simp
  }
qed

theorem missing_start_dropped_missing_end_kept_witness:
  "groupby_agg example_orbits =
     Inr [\<lparr>Sector = 1, Sector_Start = None, Sector_End = Some 20\<rparr>,
          \<lparr>Sector = 2, Sector_Start = Some 25, Sector_End = Some 55\<rparr>,
          \<lparr>Sector = 3, Sector_Start = Some 50, Sector_End = None\<rparr>] \<and>
   dropna_Sector_Start (dropna_Sector_Start
       [\<lparr>Sector = 1, Sector_Start = None, Sector_End = Some 20\<rparr>,
        \<lparr>Sector = 2, Sector_Start = Some 25, Sector_End = Some 55\<rparr>,
        \<lparr>Sector = 3, Sector_Start = Some (50 :: int), Sector_End = None\<rparr>]) =
     [\<lparr>Sector = 2, Sector_Start = Some 25, Sector_End = Some 55\<rparr>,
      \<lparr>Sector = 3, Sector_Start = Some 50, Sector_End = None\<rparr>] \<and>
   TESS_sectors_df real_of_int example_orbits = Inl ValueError \<and>
   groupby_agg example_orbits_with_ends =
     Inr [\<lparr>Sector = 1, Sector_Start = None, Sector_End = Some 20\<rparr>,
          \<lparr>Sector = 2, Sector_Start = Some 25, Sector_End = Some 55\<rparr>] \<and>
   TESS_sectors_df real_of_int example_orbits_with_ends =
     Inr [\<lparr>Sector = 2, Sector_Start = 25, Sector_End = 55\<rparr>]"
  using missing_start_dropped_missing_end_kept [OF example_groupby, of real_of_int]
    missing_start_dropped_missing_end_kept [OF example_groupby_with_ends, of real_of_int]
    example_groupby example_groupby_with_ends
  by (simp add: dropna_Sector_Start_def)

section \<open>The candidates\<close>

lemma reset_rows:
  "map (\<lambda>(i, r). r\<lparr>label := i, carried := label r # carried r\<rparr>) (enumerate n rows) =
   map (\<lambda>(i, r). \<lparr>label = i, carried = label r # carried r, content = content r\<rparr>) (enumerate n rows)"
  by (induction rows arbitrary: n) auto

lemma content_reset:
  "map content (map (\<lambda>(i, r). r\<lparr>label := i, carried := label r # carried r\<rparr>) (enumerate n rows)) =
     map content rows"
  by (induction rows arbitrary: n) auto

lemma label_reset:
  "map label (map (\<lambda>(i, r). r\<lparr>label := i, carried := label r # carried r\<rparr>) (enumerate n rows)) =
     [n..<n + length rows]"
  by (induction rows arbitrary: n) (auto simp: upt_rec)

lemma carried_reset:
  "map (\<lambda>r. (carried r, content r))
     (map (\<lambda>(i, r). r\<lparr>label := i, carried := label r # carried r\<rparr>) (enumerate n rows)) =
   map (\<lambda>r. (label r # carried r, content r)) rows"
  by (induction rows arbitrary: n) auto

lemma same_labels_reset:
  "map label rows = [n..<n + length rows] \<Longrightarrow>
   map (\<lambda>(i, r). r\<lparr>label := i, carried := label r # carried r\<rparr>) (enumerate n rows) =
   map (\<lambda>r. r\<lparr>carried := label r # carried r\<rparr>) rows"
proof (induction rows arbitrary: n)
  case Nil
  then show ?case by simp
next
  case (Cons r rows)
  from Cons.prems have "label r = n" and "map label rows = [Suc n..<Suc n + length rows]"
    by (simp_all add: upt_rec)
  with Cons.IH [of "Suc n"] show ?case by simp
qed

lemma filter_frame_rows:
  "filter (\<lambda>r. sectors (content r) \<noteq> [])
     (map (\<lambda>(i, f). \<lparr>label = i, carried = [], content = f\<rparr>) (enumerate n fs)) =
   map (\<lambda>(i, f). \<lparr>label = i, carried = [], content = f\<rparr>)
     (filter (\<lambda>(i, f). sectors f \<noteq> []) (enumerate n fs))"
  by (induction fs arbitrary: n) auto

lemma content_selected:
  "map snd (filter (\<lambda>(i, f). sectors f \<noteq> []) (enumerate n fs)) = filter (\<lambda>f. sectors f \<noteq> []) fs"
  by (induction fs arbitrary: n) auto

lemma all_selected:
  "map content rows = filter (\<lambda>f. sectors f \<noteq> []) fs \<Longrightarrow>
   filter (\<lambda>r. sectors (content r) \<noteq> []) rows = rows"
proof -
  assume a: "map content rows = filter (\<lambda>f. sectors f \<noteq> []) fs"
  have "\<forall>r\<in>set rows. sectors (content r) \<noteq> []"
  proof
    fix r assume "r \<in> set rows"
    then have "content r \<in> set (map content rows)" by simp
    with a show "sectors (content r) \<noteq> []" by simp
  qed
  then show ?thesis by (simp add: filter_id_conv)
qed

text \<open>
  \<^bold>\<open>C8\<close>. The claim: the last step returns the flares with a sector, in order, and
  applied to its own result it returns the same again. It does return those flares in
  order, but \<^verbatim>\<open>reset_index\<close> adds a column each time: for a frame of two flares of which
  the second has sector 67, the first result has the column \<^verbatim>\<open>index\<close> and the second
  result has the columns \<^verbatim>\<open>level_0\<close> and \<^verbatim>\<open>index\<close>.
\<close>

theorem candidates_twice_counterexample:
  "spt_tess_candidates (frame_of [flare_at 12 60132, (flare_at 13 60140)\<lparr>sectors := [67]\<rparr>]) =
     Inr \<lparr>carried_names = [''index''], catalogue = True,
          body = [\<lparr>label = 0, carried = [1], content = (flare_at 13 60140)\<lparr>sectors := [67]\<rparr>\<rparr>]\<rparr> \<and>
   spt_tess_candidates
       \<lparr>carried_names = [''index''], catalogue = True,
        body = [\<lparr>label = 0, carried = [1], content = (flare_at 13 60140)\<lparr>sectors := [67]\<rparr>\<rparr>]\<rparr> =
     Inr \<lparr>carried_names = [''level_0'', ''index''], catalogue = True,
          body = [\<lparr>label = 0, carried = [0, 1], content = (flare_at 13 60140)\<lparr>sectors := [67]\<rparr>\<rparr>]\<rparr> \<and>
   \<lparr>carried_names = [''level_0'', ''index''], catalogue = True,
    body = [\<lparr>label = 0, carried = [0, 1], content = (flare_at 13 60140)\<lparr>sectors := [67]\<rparr>\<rparr>]\<rparr> \<noteq>
   \<lparr>carried_names = [''index''], catalogue = True,
    body = [\<lparr>label = 0, carried = [1], content = (flare_at 13 60140)\<lparr>sectors := [67]\<rparr>\<rparr>]\<rparr>"
  by (simp add: spt_tess_candidates_def reset_index_def frame_of_def flare_at_def enumerate_eq_zip)

text \<open>
  \<^bold>\<open>C8\<close>. As amended: applied to the frame the loop has worked on, the last step
  returns the flares that have at least one sector, unchanged and in their order,
  labelled \<open>0, 1, \<dots>\<close>, each with its old label in the new column \<^verbatim>\<open>index\<close>. Applied to
  that result it does not return the same table. If the result has rows, it returns
  the same rows with the same labels and one more column, \<^verbatim>\<open>level_0\<close>, holding these
  labels. If the result has no row, it returns a frame without rows whose only column
  is \<^verbatim>\<open>index\<close>; and if the catalogue itself was empty, the first result is already
  such a frame and the second application raises \<^verbatim>\<open>KeyError\<close>.
\<close>

theorem candidates_are_matched_flares_in_order:
  "\<exists>out.
     spt_tess_candidates (frame_of fs) = Inr out \<and>
     map content (body out) = filter (\<lambda>f. length (sectors f) > 0) fs \<and>
     map (\<lambda>r. (carried r, content r)) (body out) =
       map (\<lambda>(i, f). ([i], f)) (filter (\<lambda>(i, f). length (sectors f) > 0) (enumerate 0 fs)) \<and>
     map label (body out) = [0..<length (body out)] \<and>
     carried_names out = [''index''] \<and>
     spt_tess_candidates out =
       (if fs = [] then Inl KeyError
        else if body out = [] then Inr \<lparr>carried_names = [''index''], catalogue = False, body = []\<rparr>
        else Inr \<lparr>carried_names = [''level_0'', ''index''], catalogue = True,
                  body = map (\<lambda>r. r\<lparr>carried := label r # carried r\<rparr>) (body out)\<rparr>)"
proof (cases "fs = []")
  case True
  then show ?thesis
    by (simp add: spt_tess_candidates_def frame_of_def reset_index_def)
next
  case False
  define sel where "sel = filter (\<lambda>(i, f). sectors f \<noteq> []) (enumerate 0 fs)"
  define rows0 where "rows0 = map (\<lambda>(i, f). \<lparr>label = i, carried = [], content = f\<rparr>) sel"
  define rows1 where
    "rows1 = map (\<lambda>(i, r). r\<lparr>label := i, carried := label r # carried r\<rparr>) (enumerate 0 rows0)"
  define out where "out = \<lparr>carried_names = [''index''], catalogue = True, body = rows1\<rparr>"
  from False have ne: "enumerate 0 fs \<noteq> []"
    by (cases fs) simp_all
  have first: "spt_tess_candidates (frame_of fs) = Inr out"
    using ne
    by (simp add: spt_tess_candidates_def frame_of_def reset_index_def filter_frame_rows
          out_def rows1_def rows0_def sel_def)
  have content: "map content rows1 = filter (\<lambda>f. sectors f \<noteq> []) fs"
  proof -
    have "map content rows1 = map content rows0"
      unfolding rows1_def by (rule content_reset)
    also have "\<dots> = map snd sel"
      unfolding rows0_def by (simp add: case_prod_unfold comp_def)
    also have "\<dots> = filter (\<lambda>f. sectors f \<noteq> []) fs"
      unfolding sel_def by (rule content_selected)
    finally show ?thesis .
  qed
  have carried: "map (\<lambda>r. (carried r, content r)) rows1 = map (\<lambda>(i, f). ([i], f)) sel"
  proof -
    have "map (\<lambda>r. (carried r, content r)) rows1 = map (\<lambda>r. (label r # carried r, content r)) rows0"
      unfolding rows1_def by (rule carried_reset)
    also have "\<dots> = map (\<lambda>(i, f). ([i], f)) sel"
      unfolding rows0_def by (simp add: case_prod_unfold comp_def)
    finally show ?thesis .
  qed
  have labels: "map label rows1 = [0..<length rows1]"
  proof -
    have "map label rows1 = [0..<0 + length rows0]"
      unfolding rows1_def by (rule label_reset)
    moreover have "length rows1 = length rows0"
      by (simp add: rows1_def)
    ultimately show ?thesis by simp
  qed
  have second: "spt_tess_candidates out =
       (if body out = [] then Inr \<lparr>carried_names = [''index''], catalogue = False, body = []\<rparr>
        else Inr \<lparr>carried_names = [''level_0'', ''index''], catalogue = True,
                  body = map (\<lambda>r. r\<lparr>carried := label r # carried r\<rparr>) (body out)\<rparr>)"
  proof (cases "rows1 = []")
    case True
    then show ?thesis
      by (simp add: spt_tess_candidates_def reset_index_def out_def)
  next
    case False
    have all: "filter (\<lambda>r. sectors (content r) \<noteq> []) rows1 = rows1"
      using content by (rule all_selected)
    have "map label rows1 = [0..<0 + length rows1]"
      using labels by simp
    then have "map (\<lambda>(i, r). r\<lparr>label := i, carried := label r # carried r\<rparr>) (enumerate 0 rows1) =
        map (\<lambda>r. r\<lparr>carried := label r # carried r\<rparr>) rows1"
      by (rule same_labels_reset)
    with False all show ?thesis
      by (simp add: spt_tess_candidates_def reset_index_def out_def)
  qed
  from first content carried labels second False show ?thesis
    by (auto simp: out_def sel_def)
qed

theorem candidates_are_matched_flares_in_order_witness:
  "spt_tess_candidates (frame_of [flare_at 12 60132, (flare_at 13 60140)\<lparr>sectors := [67]\<rparr>]) =
     Inr \<lparr>carried_names = [''index''], catalogue = True,
          body = [\<lparr>label = 0, carried = [1], content = (flare_at 13 60140)\<lparr>sectors := [67]\<rparr>\<rparr>]\<rparr> \<and>
   filter (\<lambda>f. length (sectors f) > 0) [flare_at 12 60132, (flare_at 13 60140)\<lparr>sectors := [67]\<rparr>] =
     [(flare_at 13 60140)\<lparr>sectors := [67]\<rparr>] \<and>
   spt_tess_candidates
       \<lparr>carried_names = [''index''], catalogue = True,
        body = [\<lparr>label = 0, carried = [1], content = (flare_at 13 60140)\<lparr>sectors := [67]\<rparr>\<rparr>]\<rparr> =
     Inr \<lparr>carried_names = [''level_0'', ''index''], catalogue = True,
          body = [\<lparr>label = 0, carried = [0, 1], content = (flare_at 13 60140)\<lparr>sectors := [67]\<rparr>\<rparr>]\<rparr> \<and>
   spt_tess_candidates (frame_of [flare_at 12 60132]) =
     Inr \<lparr>carried_names = [''index''], catalogue = True, body = []\<rparr> \<and>
   spt_tess_candidates \<lparr>carried_names = [''index''], catalogue = True, body = []\<rparr> =
     Inr \<lparr>carried_names = [''index''], catalogue = False, body = []\<rparr> \<and>
   spt_tess_candidates (frame_of []) = Inr \<lparr>carried_names = [''index''], catalogue = False, body = []\<rparr> \<and>
   spt_tess_candidates \<lparr>carried_names = [''index''], catalogue = False, body = []\<rparr> = Inl KeyError"
  using candidates_are_matched_flares_in_order [of "[flare_at 12 60132, (flare_at 13 60140)\<lparr>sectors := [67]\<rparr>]"]
    candidates_are_matched_flares_in_order [of "[flare_at 12 60132]"]
    candidates_are_matched_flares_in_order [of "[]"]
  by (simp add: spt_tess_candidates_def reset_index_def frame_of_def flare_at_def enumerate_eq_zip)

end
